theory Spec2Isabelle
  imports
    Main
    "HOL-Library.Finite_Map"
    "HOL-Library.List_Lexorder"
    "HOL-Library.Char_ord"
begin

section \<open>Python values\<close>

text \<open>
  The values that travel through \<^verbatim>\<open>update_by_query.py\<close>: keyword arguments, the script
  mapping, the extras and the wire body. A dict is a finite map, so that two dicts are
  equal exactly when Python's \<^verbatim>\<open>==\<close> says so (the order of insertion does not count).
  \<open>PObj v\<close> is an object that has a \<^verbatim>\<open>to_dict()\<close> method returning \<open>v\<close> (a nested
  builder-like value, as \<^verbatim>\<open>recursive_to_dict\<close> looks for them).
\<close>

datatype pyval =
    PNone
  | PBool bool
  | PInt int
  | PStr string
  | PList "pyval list"
  | PDict "(string, pyval) fmap"
  | PObj pyval

type_synonym dict = "(string, pyval) fmap"

datatype error =
    AttributeError
  | TypeError
  | ValueError
  | TransportError string

text \<open>Python's truth value of an object, as \<^verbatim>\<open>if self._script:\<close> tests it.\<close>

fun truthy :: "pyval \<Rightarrow> bool" where
  "truthy PNone = False"
| "truthy (PBool b) = b"
| "truthy (PInt i) = (i \<noteq> 0)"
| "truthy (PStr s) = (s \<noteq> [])"
| "truthy (PList xs) = (xs \<noteq> [])"
| "truthy (PDict m) = (m \<noteq> fmempty)"
| "truthy (PObj v) = True"

text \<open>
  \<^verbatim>\<open>x.copy()\<close>: dicts and lists have the method, the other values raise
  \<^verbatim>\<open>AttributeError\<close>. The copy is shallow; the values below the top level are
  immutable in this model, so the copy has the same contents in a new cell.
\<close>

fun py_copy :: "pyval \<Rightarrow> error + pyval" where
  "py_copy (PDict m) = Inr (PDict m)"
| "py_copy (PList xs) = Inr (PList xs)"
| "py_copy _ = Inl AttributeError"

text \<open>
  \<^verbatim>\<open>x.update(y)\<close>: only a dict has the method; the keys of \<open>y\<close> win. Every caller in
  the file passes a mapping for \<open>y\<close>; another argument is rejected here.
\<close>

fun py_update :: "pyval \<Rightarrow> pyval \<Rightarrow> error + pyval" where
  "py_update (PDict m) (PDict n) = Inr (PDict (m ++\<^sub>f n))"
| "py_update (PDict m) _ = Inl TypeError"
| "py_update _ _ = Inl AttributeError"

text \<open>
  Modelled from the spec: \<^verbatim>\<open>utils.recursive_to_dict\<close> is imported by the file and is
  not among the sources. The spec: "Recursive serialization unwraps any nested
  builder-like values found inside extras/kwargs."
\<close>

primrec recursive_to_dict :: "pyval \<Rightarrow> pyval" where
  "recursive_to_dict PNone = PNone"
| "recursive_to_dict (PBool b) = PBool b"
| "recursive_to_dict (PInt i) = PInt i"
| "recursive_to_dict (PStr s) = PStr s"
| "recursive_to_dict (PList xs) = PList (map recursive_to_dict xs)"
| "recursive_to_dict (PDict m) = PDict (fmmap recursive_to_dict m)"
| "recursive_to_dict (PObj v) = recursive_to_dict v"

section \<open>The query value\<close>

text \<open>
  Modelled from the spec: the module \<^verbatim>\<open>query\<close> (\<^verbatim>\<open>Q\<close>, \<^verbatim>\<open>Bool\<close>, the operators
  \<^verbatim>\<open>~\<close> and \<^verbatim>\<open>&\<close>, \<^verbatim>\<open>to_dict\<close>) is imported by the file and is not among the sources.
  The spec's QueryNode is "a leaf query term (kind + field/value parameters)" or "a
  compound node holding an ordered list of child QueryNodes under a boolean operator
  (must, filter, must_not)". Its third alternative, the empty marker, is the unset
  query of a builder: \<open>None\<close> in the field \<open>b_proxied\<close> below.
\<close>

datatype query =
    Leaf string dict
  | Bool (must: "query list") (filter_clause: "query list") (must_not: "query list")

text \<open>
  Modelled from the spec: the serialised form of a query, read off the spec's scenarios
  (\<^verbatim>\<open>{"term": {"published": true}}\<close>, \<^verbatim>\<open>{"bool": {"filter": [...]}}\<close>,
  \<^verbatim>\<open>{"bool": {"must_not": [...]}}\<close>): a clause without children is left out.
\<close>

definition clause :: "string \<Rightarrow> pyval list \<Rightarrow> dict" where
  "clause name vs = (if vs = [] then fmempty else fmupd name (PList vs) fmempty)"

fun query_to_dict :: "query \<Rightarrow> pyval" where
  "query_to_dict (Leaf kind params) = PDict (fmupd kind (PDict params) fmempty)"
| "query_to_dict (Bool m f n) =
     PDict (fmupd ''bool''
       (PDict (clause ''must'' (map query_to_dict m)
               ++\<^sub>f clause ''filter'' (map query_to_dict f)
               ++\<^sub>f clause ''must_not'' (map query_to_dict n)))
       fmempty)"

text \<open>The only item of a dict that has exactly one.\<close>

definition single_item :: "dict \<Rightarrow> (string \<times> pyval) option" where
  "single_item m = (case sorted_list_of_fmap m of [kv] \<Rightarrow> Some kv | _ \<Rightarrow> None)"

fun sequence :: "(error + 'a) list \<Rightarrow> error + 'a list" where
  "sequence [] = Inr []"
| "sequence (Inl e # rs) = Inl e"
| "sequence (Inr x # rs) = (case sequence rs of Inl e \<Rightarrow> Inl e | Inr xs \<Rightarrow> Inr (x # xs))"

fun parse_clause :: "(pyval \<Rightarrow> error + query) \<Rightarrow> pyval option \<Rightarrow> error + query list" where
  "parse_clause f None = Inr []"
| "parse_clause f (Some (PList vs)) = sequence (map f vs)"
| "parse_clause f (Some _) = Inl ValueError"

lemma single_item_lookup: "single_item m = Some (k, v) \<Longrightarrow> fmlookup m k = Some v"
proof -
  assume "single_item m = Some (k, v)"
  then have "sorted_list_of_fmap m = [(k, v)]"
    by (auto simp: single_item_def split: list.splits)
  then have "map_of (sorted_list_of_fmap m) k = Some v"
    by simp
  then show ?thesis
    by (simp only: map_of_sorted_list)
qed

lemma single_item_fmupd [simp]: "single_item (fmupd k v fmempty) = Some (k, v)"
  by (simp add: single_item_def sorted_list_of_fmap_def sorted_list_of_fset.rep_eq)

lemma fmlookup_size: "fmlookup m k = Some v \<Longrightarrow> size v < size (PDict m)"
proof -
  assume "fmlookup m k = Some v"
  then have mem: "(k, v) \<in> fset (fset_of_fmap m)"
    by simp
  have "(\<lambda>(a, b). Suc (size b)) (k, v)
          \<le> (\<Sum>x\<in>fset (fset_of_fmap m). (\<lambda>(a, b). Suc (size b)) x)"
    by (rule member_le_sum[OF mem]) auto
  then show ?thesis
    by (simp add: case_prod_beta)
qed

lemma member_size: "v \<in> set vs \<Longrightarrow> size v < size (PList vs)"
  by (induction vs) auto

lemma nested_size:
  assumes "single_item m = Some (kind, PDict params)"
    and "fmlookup params c = Some (PList vs)" and "w \<in> set vs"
  shows "size w < size (PDict m)"
proof -
  have "size (PDict params) < size (PDict m)"
    using assms(1) by (blast dest: single_item_lookup fmlookup_size)
  moreover have "size (PList vs) < size (PDict params)"
    using assms(2) by (rule fmlookup_size)
  moreover have "size w < size (PList vs)"
    using assms(3) by (rule member_size)
  ultimately show ?thesis by linarith
qed

lemma parse_clause_cong [fundef_cong]:
  "c = c' \<Longrightarrow> (\<And>vs v. c' = Some (PList vs) \<Longrightarrow> v \<in> set vs \<Longrightarrow> f v = g v)
     \<Longrightarrow> parse_clause f c = parse_clause g c'"
  by (cases "(f, c)" rule: parse_clause.cases) (auto cong: map_cong)

text \<open>
  Modelled from the spec: \<^verbatim>\<open>Q(d)\<close> on a serialised query, the parser that
  \<^verbatim>\<open>update_from_dict\<close> calls ("pops "query" (parsed into a QueryNode)"). It reads back
  what \<open>query_to_dict\<close> writes: a dict with one key, the kind, over the parameters; under
  \<^verbatim>\<open>"bool"\<close> the clauses, each a list of serialised queries. Anything else is the
  spec's construction error.
\<close>

function (sequential) Q_dict :: "pyval \<Rightarrow> error + query" where
  "Q_dict (PDict m) =
     (case single_item m of
        Some (kind, PDict params) \<Rightarrow>
          (if kind = ''bool'' then
             (if fmdom params |\<subseteq>| {|''must'', ''filter'', ''must_not''|} then
                (case (parse_clause Q_dict (fmlookup params ''must''),
                       parse_clause Q_dict (fmlookup params ''filter''),
                       parse_clause Q_dict (fmlookup params ''must_not'')) of
                   (Inr m, Inr f, Inr n) \<Rightarrow> Inr (Bool m f n)
                 | _ \<Rightarrow> Inl ValueError)
              else Inl ValueError)
           else Inr (Leaf kind params))
      | _ \<Rightarrow> Inl ValueError)"
| "Q_dict _ = Inl ValueError"
  by pat_completeness auto
termination
  by (relation "measure size") (auto intro: nested_size simp del: pyval.size)

text \<open>
  Modelled from the spec: \<^verbatim>\<open>Q(kind, **params)\<close>, the call of \<^verbatim>\<open>filter\<close> and
  \<^verbatim>\<open>exclude\<close> (the spec's scenario \<^verbatim>\<open>filter(term, published=True)\<close>): the query that
  \<^verbatim>\<open>{kind: params}\<close> parses to.
\<close>

definition Q :: "string \<Rightarrow> dict \<Rightarrow> error + query" where
  "Q kind params = Q_dict (PDict (fmupd kind (PDict params) fmempty))"

text \<open>
  Modelled from the spec: \<^verbatim>\<open>~q\<close>. "if a is already a single-child must_not compound,
  returns its child (double negation cancels) rather than double-wrapping. Otherwise
  produces a bool compound node with a as the sole must_not child."
\<close>

fun negate :: "query \<Rightarrow> query" where
  "negate (Bool [] [] [c]) = c"
| "negate q = Bool [] [] [q]"

text \<open>
  Modelled from the spec: \<^verbatim>\<open>a & b\<close> on two held queries. "wraps both as children of a
  compound bool node; if an operand is already a compound bool node with only a
  filter/must clause, its children are spliced in directly rather than nested one level
  deeper".
\<close>

fun must_part :: "query \<Rightarrow> query list" where
  "must_part (Bool m f []) = m"
| "must_part q = [q]"

fun filter_part :: "query \<Rightarrow> query list" where
  "filter_part (Bool m f []) = f"
| "filter_part q = []"

definition combine :: "query \<Rightarrow> query \<Rightarrow> query" where
  "combine a b = Bool (must_part a @ must_part b) (filter_part a @ filter_part b) []"

section \<open>The store\<close>

text \<open>
  The builder clones itself and copies or updates its dicts in place, so the objects
  that Python shares by reference live in a store: the builders and the top-level
  containers (the script, the extras, the call parameters, a caller's wire mapping, a
  returned wire body) each have an address. A new object takes the next free address.
  The values inside a container are immutable values; no line of the file changes one
  below its top level.
\<close>

type_synonym addr = nat

text \<open>
  Modelled from the spec: the response wrapper (\<^verbatim>\<open>response.UpdateByQueryResponse\<close> is
  not among the sources). "constructed with (owningBuilder, rawReply); the core does not
  inspect its internals": the class, the builder and the raw reply.
\<close>

datatype response = Response string addr pyval

text \<open>
  The attributes of an \<^verbatim>\<open>UpdateByQuery\<close>. \<open>b_using\<close>, \<open>b_index\<close>, \<open>b_params\<close> and
  \<open>b_extra\<close> are those of the base class \<^verbatim>\<open>Request\<close>; \<open>b_proxied\<close> is
  \<^verbatim>\<open>self.query._proxied\<close> (each builder has its own proxy, made in \<^verbatim>\<open>__init__\<close>), with
  \<open>None\<close> for the unset query; \<open>b_response\<close> is \<^verbatim>\<open>self._response\<close>, absent until
  \<^verbatim>\<open>execute\<close> sets it.
\<close>

record builder =
  b_using :: string
  b_index :: pyval
  b_params :: addr
  b_extra :: addr
  b_response_class :: string
  b_script :: addr
  b_proxied :: "query option"
  b_response :: "response option"

record heap =
  cells :: "addr \<Rightarrow> pyval"
  next_cell :: addr
  builders :: "addr \<Rightarrow> builder"
  next_builder :: addr

type_synonym 'a result = "(error + 'a) \<times> heap"

definition alloc :: "heap \<Rightarrow> pyval \<Rightarrow> addr \<times> heap" where
  "alloc h v = (next_cell h, h\<lparr>cells := (cells h)(next_cell h := v), next_cell := Suc (next_cell h)\<rparr>)"

definition store :: "heap \<Rightarrow> addr \<Rightarrow> pyval \<Rightarrow> heap" where
  "store h a v = h\<lparr>cells := (cells h)(a := v)\<rparr>"

definition new_builder :: "heap \<Rightarrow> builder \<Rightarrow> addr \<times> heap" where
  "new_builder h b =
     (next_builder h, h\<lparr>builders := (builders h)(next_builder h := b), next_builder := Suc (next_builder h)\<rparr>)"

definition put_builder :: "heap \<Rightarrow> addr \<Rightarrow> builder \<Rightarrow> heap" where
  "put_builder h a b = h\<lparr>builders := (builders h)(a := b)\<rparr>"

text \<open>What a builder holds, read through its references.\<close>

definition query_of :: "heap \<Rightarrow> addr \<Rightarrow> query option" where
  "query_of h b = b_proxied (builders h b)"

definition script_of :: "heap \<Rightarrow> addr \<Rightarrow> pyval" where
  "script_of h b = cells h (b_script (builders h b))"

definition extra_of :: "heap \<Rightarrow> addr \<Rightarrow> pyval" where
  "extra_of h b = cells h (b_extra (builders h b))"

definition params_of :: "heap \<Rightarrow> addr \<Rightarrow> pyval" where
  "params_of h b = cells h (b_params (builders h b))"

text \<open>
  A builder of the store: it and its three containers are allocated, and the three
  containers are three objects.
\<close>

definition valid :: "heap \<Rightarrow> addr \<Rightarrow> bool" where
  "valid h b =
     (b < next_builder h
      \<and> b_params (builders h b) < next_cell h
      \<and> b_extra (builders h b) < next_cell h
      \<and> b_script (builders h b) < next_cell h
      \<and> b_params (builders h b) \<noteq> b_extra (builders h b)
      \<and> b_params (builders h b) \<noteq> b_script (builders h b)
      \<and> b_extra (builders h b) \<noteq> b_script (builders h b))"

text \<open>The script, the extras and the call parameters of the builder are mappings.\<close>

definition mappings :: "heap \<Rightarrow> addr \<Rightarrow> bool" where
  "mappings h b =
     ((\<exists>m. script_of h b = PDict m) \<and> (\<exists>m. extra_of h b = PDict m) \<and> (\<exists>m. params_of h b = PDict m))"

section \<open>The builder\<close>

text \<open>
  \<^verbatim>\<open>__init__\<close>. The call \<^verbatim>\<open>super().__init__(**kwargs)\<close> is modelled from the spec
  (\<^verbatim>\<open>search.Request\<close> is not among the sources): it keeps the connection name and the
  target index, and starts with empty call parameters and empty extras. Then the lines
  of the file: the default response class, an empty script, an unset query.
\<close>

definition init :: "heap \<Rightarrow> string \<Rightarrow> pyval \<Rightarrow> addr \<times> heap" where
  "init h using index =
     (let (p, h1) = alloc h (PDict fmempty);
          (e, h2) = alloc h1 (PDict fmempty);
          (s, h3) = alloc h2 (PDict fmempty)
      in new_builder h3
           \<lparr>b_using = using, b_index = index, b_params = p, b_extra = e,
            b_response_class = ''UpdateByQueryResponse'', b_script = s,
            b_proxied = None, b_response = None\<rparr>)"

text \<open>
  Modelled from the spec: \<^verbatim>\<open>Request._clone\<close>, called as \<^verbatim>\<open>super()._clone()\<close>. "every
  mutator performs a shallow clone of the builder's own state": a new instance of the
  class on the same connection and index, with copies of the extras and of the call
  parameters.
\<close>

definition Request_clone :: "heap \<Rightarrow> addr \<Rightarrow> addr result" where
  "Request_clone h self =
     (let (s, h1) = init h (b_using (builders h self)) (b_index (builders h self)) in
      case py_copy (extra_of h1 self) of
        Inl err \<Rightarrow> (Inl err, h1)
      | Inr ev \<Rightarrow>
          let (e, h2) = alloc h1 ev;
              h3 = put_builder h2 s ((builders h2 s)\<lparr>b_extra := e\<rparr>)
          in case py_copy (params_of h3 self) of
               Inl err \<Rightarrow> (Inl err, h3)
             | Inr pv \<Rightarrow>
                 let (p, h4) = alloc h3 pv
                 in (Inr s, put_builder h4 s ((builders h4 s)\<lparr>b_params := p\<rparr>)))"

text \<open>\<^verbatim>\<open>_clone\<close>, lines 66 to 77.\<close>

definition clone :: "heap \<Rightarrow> addr \<Rightarrow> addr result" where
  "clone h self =
     (case Request_clone h self of
        (Inl err, h1) \<Rightarrow> (Inl err, h1)
      | (Inr ubq, h1) \<Rightarrow>
          let h2 = put_builder h1 ubq
                     ((builders h1 ubq)\<lparr>b_response_class := b_response_class (builders h1 self)\<rparr>)
          in case py_copy (script_of h2 self) of
               Inl err \<Rightarrow> (Inl err, h2)
             | Inr sv \<Rightarrow>
                 let (s, h3) = alloc h2 sv;
                     h4 = put_builder h3 ubq ((builders h3 ubq)\<lparr>b_script := s\<rparr>);
                     h5 = put_builder h4 ubq ((builders h4 ubq)\<lparr>b_proxied := query_of h4 self\<rparr>)
                 in (Inr ubq, h5))"

text \<open>
  Modelled from the spec: the call \<^verbatim>\<open>self.query(q)\<close> of the proxy
  (\<^verbatim>\<open>search.QueryProxy\<close> is not among the sources). "combineInto(term) calls
  combine(current, term) and stores the result back onto this proxy's owning Builder
  instance", where the owner is a clone of the receiver ("a filter call on a clone never
  leaks into the original"), and "if either operand is the empty/match-all marker,
  returns the other operand unchanged".
\<close>

definition query_call :: "heap \<Rightarrow> addr \<Rightarrow> query \<Rightarrow> addr result" where
  "query_call h self q =
     (case clone h self of
        (Inl err, h1) \<Rightarrow> (Inl err, h1)
      | (Inr s, h1) \<Rightarrow>
          (Inr s, put_builder h1 s
             ((builders h1 s)\<lparr>b_proxied :=
                Some (case query_of h1 s of None \<Rightarrow> q | Some p \<Rightarrow> combine p q)\<rparr>)))"

text \<open>\<^verbatim>\<open>filter\<close>, lines 38 and 39: \<^verbatim>\<open>self.query(Bool(filter=[Q(*args, **kwargs)]))\<close>.\<close>

definition filter_ubq :: "heap \<Rightarrow> addr \<Rightarrow> string \<Rightarrow> dict \<Rightarrow> addr result" where
  "filter_ubq h self kind kwargs =
     (case Q kind kwargs of
        Inl err \<Rightarrow> (Inl err, h)
      | Inr q \<Rightarrow> query_call h self (Bool [] [q] []))"

text \<open>\<^verbatim>\<open>exclude\<close>, lines 41 and 42: \<^verbatim>\<open>self.query(Bool(filter=[~Q(*args, **kwargs)]))\<close>.\<close>

definition exclude :: "heap \<Rightarrow> addr \<Rightarrow> string \<Rightarrow> dict \<Rightarrow> addr result" where
  "exclude h self kind kwargs =
     (case Q kind kwargs of
        Inl err \<Rightarrow> (Inl err, h)
      | Inr q \<Rightarrow> query_call h self (Bool [] [negate q] []))"

text \<open>\<^verbatim>\<open>response_class\<close>, lines 79 to 85.\<close>

definition response_class :: "heap \<Rightarrow> addr \<Rightarrow> string \<Rightarrow> addr result" where
  "response_class h self cls =
     (case clone h self of
        (Inl err, h1) \<Rightarrow> (Inl err, h1)
      | (Inr ubq, h1) \<Rightarrow>
          (Inr ubq, put_builder h1 ubq ((builders h1 ubq)\<lparr>b_response_class := cls\<rparr>)))"

text \<open>
  \<^verbatim>\<open>update_from_dict\<close>, lines 87 to 98. \<open>d\<close> is the address of the caller's mapping, "a
  raw dict containing the search body". The model covers a mapping \<open>d\<close>: on another value
  it raises, where Python would take a list as a sequence of key and value pairs in
  \<^verbatim>\<open>update\<close>. The value popped under \<^verbatim>\<open>"script"\<close> becomes the builder's script as it is,
  in a cell of its own.
\<close>

definition update_from_dict :: "heap \<Rightarrow> addr \<Rightarrow> addr \<Rightarrow> addr result" where
  "update_from_dict h self d =
     (case py_copy (cells h d) of
        Inl err \<Rightarrow> (Inl err, h)
      | Inr dv \<Rightarrow>
          let (c, h1) = alloc h dv in
          (case dv of
             PDict m \<Rightarrow>
               (case (case fmlookup m ''query'' of
                        None \<Rightarrow> (Inr (), h1)
                      | Some v \<Rightarrow>
                          let h2 = store h1 c (PDict (fmdrop ''query'' m)) in
                          (case Q_dict v of
                             Inl err \<Rightarrow> (Inl err, h2)
                           | Inr q \<Rightarrow>
                               (Inr (), put_builder h2 self ((builders h2 self)\<lparr>b_proxied := Some q\<rparr>)))) of
                  (Inl err, h3) \<Rightarrow> (Inl err, h3)
                | (Inr _, h3) \<Rightarrow>
                    let m1 = fmdrop ''query'' m;
                        h5 = (case fmlookup m1 ''script'' of
                                None \<Rightarrow> h3
                              | Some v \<Rightarrow>
                                  let h4 = store h3 c (PDict (fmdrop ''script'' m1));
                                      (s, h4') = alloc h4 v
                                  in put_builder h4' self ((builders h4' self)\<lparr>b_script := s\<rparr>))
                    in (case py_update (extra_of h5 self) (cells h5 c) of
                          Inl err \<Rightarrow> (Inl err, h5)
                        | Inr ev \<Rightarrow> (Inr self, store h5 (b_extra (builders h5 self)) ev)))
           | _ \<Rightarrow> (Inl TypeError, h1)))"

text \<open>
  \<^verbatim>\<open>from_dict\<close>, lines 44 to 64: \<^verbatim>\<open>cls()\<close> and \<^verbatim>\<open>update_from_dict\<close>. The defaults of
  the constructor (the connection named \<^verbatim>\<open>default\<close>, no index) are modelled from the
  spec, as \<open>init\<close> is.
\<close>

definition from_dict :: "heap \<Rightarrow> addr \<Rightarrow> addr result" where
  "from_dict h d = (let (u, h1) = init h ''default'' PNone in update_from_dict h1 u d)"

text \<open>\<^verbatim>\<open>script\<close>, lines 100 to 119.\<close>

definition script :: "heap \<Rightarrow> addr \<Rightarrow> dict \<Rightarrow> addr result" where
  "script h self kwargs =
     (case clone h self of
        (Inl err, h1) \<Rightarrow> (Inl err, h1)
      | (Inr ubq, h1) \<Rightarrow>
          let h3 = (if truthy (script_of h1 ubq)
                    then (let (s, h2) = alloc h1 (PDict fmempty)
                          in put_builder h2 ubq ((builders h2 ubq)\<lparr>b_script := s\<rparr>))
                    else h1)
          in case py_update (script_of h3 ubq) (PDict kwargs) of
               Inl err \<Rightarrow> (Inl err, h3)
             | Inr sv \<Rightarrow> (Inr ubq, store h3 (b_script (builders h3 ubq)) sv))"

text \<open>
  \<^verbatim>\<open>to_dict\<close>, lines 121 to 137. The dict \<^verbatim>\<open>d\<close> is local until it is returned; it
  enters the store then. \<^verbatim>\<open>if self.query:\<close> is modelled from the spec (the proxy is not
  among the sources): the query is emitted when one is held.
\<close>

definition to_dict :: "heap \<Rightarrow> addr \<Rightarrow> dict \<Rightarrow> addr result" where
  "to_dict h self kwargs =
     (let d0 = fmempty;
          d1 = (case query_of h self of
                  None \<Rightarrow> d0
                | Some q \<Rightarrow> fmupd ''query'' (query_to_dict q) d0);
          d2 = (if truthy (script_of h self) then fmupd ''script'' (script_of h self) d1 else d1)
      in case py_update (PDict d2) (recursive_to_dict (extra_of h self)) of
           Inl err \<Rightarrow> (Inl err, h)
         | Inr d3 \<Rightarrow>
             (case py_update d3 (recursive_to_dict (PDict kwargs)) of
                Inl err \<Rightarrow> (Inl err, h)
              | Inr d4 \<Rightarrow> (let (a, h1) = alloc h d4 in (Inr a, h1))))"




section \<open>Stating the claims\<close>

text \<open>
  The four mutators of the builder, so that one statement covers them all, and the
  arguments that the query layer accepts (a mutator whose query term is rejected raises
  before it clones).
\<close>

datatype mutator = Filter string dict | Exclude string dict | Script dict | ResponseClass string

fun apply_mutator :: "heap \<Rightarrow> addr \<Rightarrow> mutator \<Rightarrow> addr result" where
  "apply_mutator h b (Filter kind kwargs) = filter_ubq h b kind kwargs"
| "apply_mutator h b (Exclude kind kwargs) = exclude h b kind kwargs"
| "apply_mutator h b (Script kwargs) = script h b kwargs"
| "apply_mutator h b (ResponseClass cls) = response_class h b cls"

fun accepted :: "mutator \<Rightarrow> bool" where
  "accepted (Filter kind kwargs) = (\<not> isl (Q kind kwargs))"
| "accepted (Exclude kind kwargs) = (\<not> isl (Q kind kwargs))"
| "accepted _ = True"

text \<open>The mapping that \<^verbatim>\<open>b.to_dict(**kwargs)\<close> returns, read out of the store.\<close>

definition wire :: "heap \<Rightarrow> addr \<Rightarrow> dict \<Rightarrow> error + pyval" where
  "wire h b kwargs =
     (case to_dict h b kwargs of (Inl err, h1) \<Rightarrow> Inl err | (Inr d, h1) \<Rightarrow> Inr (cells h1 d))"

text \<open>\<^verbatim>\<open>UpdateByQuery.from_dict(b.to_dict())\<close>.\<close>

definition round_trip :: "heap \<Rightarrow> addr \<Rightarrow> addr result" where
  "round_trip h b =
     (case to_dict h b fmempty of (Inl err, h1) \<Rightarrow> (Inl err, h1) | (Inr d, h1) \<Rightarrow> from_dict h1 d)"

text \<open>
  The store \<open>h'\<close> keeps every object of the store \<open>h\<close> as it was: it may only hold more
  objects.
\<close>

definition preserves :: "heap \<Rightarrow> heap \<Rightarrow> bool" where
  "preserves h h' =
     ((\<forall>a<next_cell h. cells h' a = cells h a)
      \<and> (\<forall>x<next_builder h. builders h' x = builders h x)
      \<and> next_cell h \<le> next_cell h' \<and> next_builder h \<le> next_builder h')"

text \<open>
  The builder \<open>c\<close> of \<open>h'\<close> is a new instance with respect to \<open>h\<close>: neither it nor
  any of its containers is an object of \<open>h\<close>.
\<close>

definition fresh :: "heap \<Rightarrow> heap \<Rightarrow> addr \<Rightarrow> bool" where
  "fresh h h' c =
     (c = next_builder h \<and> valid h' c
      \<and> next_cell h \<le> b_params (builders h' c)
      \<and> next_cell h \<le> b_extra (builders h' c)
      \<and> next_cell h \<le> b_script (builders h' c))"

text \<open>The store before anything is made, and the store after \<^verbatim>\<open>UpdateByQuery()\<close> in it.\<close>

definition empty_heap :: heap where
  "empty_heap =
     \<lparr>cells = (\<lambda>_. PNone), next_cell = 0,
      builders = (\<lambda>_. \<lparr>b_using = [], b_index = PNone, b_params = 0, b_extra = 0,
                       b_response_class = [], b_script = 0, b_proxied = None,
                       b_response = None\<rparr>),
      next_builder = 0\<rparr>"

definition fresh_builder :: heap where
  "fresh_builder = snd (init empty_heap ''default'' PNone)"

text \<open>
  A builder with the script \<^verbatim>\<open>{"source": "x"}\<close> whose extras hold a key
  \<^verbatim>\<open>"script"\<close>: the extras are an open mapping, and nothing keeps the two modelled keys
  out of it.
\<close>

definition reserved_extras :: heap where
  "reserved_extras =
     store (store fresh_builder (b_script (builders fresh_builder 0))
              (PDict (fmupd ''source'' (PStr ''x'') fmempty)))
       (b_extra (builders fresh_builder 0))
       (PDict (fmupd ''script'' (PDict (fmupd ''source'' (PStr ''y'') fmempty)) fmempty))"

text \<open>
  What \<^verbatim>\<open>update_from_dict\<close> makes of the key \<^verbatim>\<open>"query"\<close> of a mapping \<open>m\<close>: absent, the
  held query stays; present, its value goes through \<^verbatim>\<open>Q\<close>, which returns the query to hold
  or raises.
\<close>

definition parsed_query :: "dict \<Rightarrow> query option \<Rightarrow> error + query option" where
  "parsed_query m held =
     (case fmlookup m ''query'' of
        None \<Rightarrow> Inr held
      | Some v \<Rightarrow> (case Q_dict v of Inl err \<Rightarrow> Inl err | Inr q \<Rightarrow> Inr (Some q)))"

text \<open>The mapping that \<^verbatim>\<open>to_dict()\<close> builds for a builder whose extras are \<open>em\<close>.\<close>

definition body_of :: "heap \<Rightarrow> addr \<Rightarrow> dict \<Rightarrow> dict" where
  "body_of h b em =
     (if truthy (script_of h b)
      then fmupd ''script'' (script_of h b)
             (case query_of h b of None \<Rightarrow> fmempty
              | Some q \<Rightarrow> fmupd ''query'' (query_to_dict q) fmempty)
      else (case query_of h b of None \<Rightarrow> fmempty
            | Some q \<Rightarrow> fmupd ''query'' (query_to_dict q) fmempty))
     ++\<^sub>f fmmap recursive_to_dict em"

text \<open>
  The queries that \<open>Q\<close>, \<open>negate\<close> and \<open>combine\<close> build: the kind \<^verbatim>\<open>bool\<close> is the
  compound node, never the kind of a leaf.
\<close>

fun well_formed :: "query \<Rightarrow> bool" where
  "well_formed (Leaf kind params) = (kind \<noteq> ''bool'')"
| "well_formed (Bool m f n) =
     ((\<forall>q\<in>set m. well_formed q) \<and> (\<forall>q\<in>set f. well_formed q) \<and> (\<forall>q\<in>set n. well_formed q))"

text \<open>
  Two builders with no query and no script: one whose extras hold a key \<^verbatim>\<open>"query"\<close>, one
  whose extras hold an object with a \<^verbatim>\<open>to_dict()\<close>.
\<close>

definition reserved_query :: heap where
  "reserved_query =
     store fresh_builder (b_extra (builders fresh_builder 0))
       (PDict (fmupd ''query'' (PDict (fmupd ''match_all'' (PDict fmempty) fmempty)) fmempty))"

definition object_extras :: heap where
  "object_extras =
     store fresh_builder (b_extra (builders fresh_builder 0))
       (PDict (fmupd ''sort'' (PObj (PDict (fmupd ''price'' (PStr ''asc'') fmempty))) fmempty))"

text \<open>
  A builder with a query, the script \<^verbatim>\<open>{"source": "x"}\<close> and the extras
  \<^verbatim>\<open>{"size": 1}\<close>.
\<close>

definition sample_builder :: heap where
  "sample_builder =
     put_builder
       (store (store fresh_builder (b_script (builders fresh_builder 0))
                 (PDict (fmupd ''source'' (PStr ''x'') fmempty)))
          (b_extra (builders fresh_builder 0)) (PDict (fmupd ''size'' (PInt 1) fmempty)))
       0 ((builders fresh_builder 0)
            \<lparr>b_proxied := Some (Bool [] [Leaf ''term'' (fmupd ''published'' (PBool True) fmempty)] [])\<rparr>)"

text \<open>
  A wire mapping with a query, a script and one more key, and the store in which a
  caller holds it next to a builder just made.
\<close>

definition scenario_body :: dict where
  "scenario_body =
     fmupd ''query'' (PDict (fmupd ''match_all'' (PDict fmempty) fmempty))
       (fmupd ''script'' (PDict (fmupd ''source'' (PStr ''x'') fmempty))
         (fmupd ''size'' (PInt 1) fmempty))"

definition with_body :: heap where
  "with_body = snd (alloc fresh_builder (PDict scenario_body))"



section \<open>The store operations, computed\<close>

lemmas heap_defs = alloc_def store_def new_builder_def put_builder_def
  query_of_def script_of_def extra_of_def params_of_def

lemma clone_frame:
  assumes "clone h b = (r, h')"
  shows "preserves h h' \<and> (\<forall>c. r = Inr c \<longrightarrow> fresh h h' c)"
  using assms
  by (auto simp: clone_def Request_clone_def init_def heap_defs valid_def Let_def preserves_def fresh_def
      split: sum.splits prod.splits)

lemma clone_explicit:
  assumes "valid h b" "script_of h b = PDict sm" "extra_of h b = PDict em" "params_of h b = PDict pm"
  shows "clone h b = (Inr (next_builder h),
     h\<lparr>cells := (cells h)(next_cell h := PDict fmempty, Suc (next_cell h) := PDict fmempty,
          Suc (Suc (next_cell h)) := PDict fmempty, next_cell h + 3 := PDict em,
          next_cell h + 4 := PDict pm, next_cell h + 5 := PDict sm),
       next_cell := next_cell h + 6,
       builders := (builders h)(next_builder h :=
          \<lparr>b_using = b_using (builders h b), b_index = b_index (builders h b),
           b_params = next_cell h + 4, b_extra = next_cell h + 3,
           b_response_class = b_response_class (builders h b), b_script = next_cell h + 5,
           b_proxied = b_proxied (builders h b), b_response = None\<rparr>),
       next_builder := Suc (next_builder h)\<rparr>)"
  using assms
  by (simp add: clone_def Request_clone_def init_def heap_defs valid_def Let_def numeral_eq_Suc fun_upd_twist)

lemma clone_mappings:
  assumes "valid h b" "mappings h b"
  shows "\<exists>c h'. clone h b = (Inr c, h') \<and> valid h' c \<and> mappings h' c
      \<and> query_of h' c = query_of h b \<and> script_of h' c = script_of h b
      \<and> extra_of h' c = extra_of h b \<and> params_of h' c = params_of h b"
proof -
  from assms(2) obtain sm em pm where
    m: "script_of h b = PDict sm" "extra_of h b = PDict em" "params_of h b = PDict pm"
    by (auto simp: mappings_def)
  show ?thesis
    unfolding clone_explicit[OF assms(1) m] using m assms(1)
    by (simp add: valid_def mappings_def heap_defs)
qed

lemma to_dict_explicit:
  assumes "extra_of h b = PDict em"
  shows "to_dict h b kwargs = (Inr (next_cell h),
     h\<lparr>cells := (cells h)(next_cell h :=
          PDict ((if truthy (script_of h b)
                  then fmupd ''script'' (script_of h b)
                         (case query_of h b of None \<Rightarrow> fmempty
                          | Some q \<Rightarrow> fmupd ''query'' (query_to_dict q) fmempty)
                  else (case query_of h b of None \<Rightarrow> fmempty
                        | Some q \<Rightarrow> fmupd ''query'' (query_to_dict q) fmempty))
                 ++\<^sub>f fmmap recursive_to_dict em ++\<^sub>f fmmap recursive_to_dict kwargs)),
       next_cell := Suc (next_cell h)\<rparr>)"
  using assms by (simp add: to_dict_def alloc_def Let_def)

lemma init_explicit:
  "init h using index = (next_builder h,
     h\<lparr>cells := (cells h)(next_cell h := PDict fmempty, Suc (next_cell h) := PDict fmempty,
          Suc (Suc (next_cell h)) := PDict fmempty),
       next_cell := next_cell h + 3,
       builders := (builders h)(next_builder h :=
          \<lparr>b_using = using, b_index = index, b_params = next_cell h, b_extra = Suc (next_cell h),
           b_response_class = ''UpdateByQueryResponse'', b_script = Suc (Suc (next_cell h)),
           b_proxied = None, b_response = None\<rparr>),
       next_builder := Suc (next_builder h)\<rparr>)"
  by (simp add: init_def heap_defs Let_def numeral_eq_Suc fun_upd_twist)

lemma init_valid:
  "valid (snd (init h using index)) (fst (init h using index))
   \<and> mappings (snd (init h using index)) (fst (init h using index))"
  by (simp add: init_explicit valid_def mappings_def heap_defs)

lemma fresh_builder_valid: "valid fresh_builder 0 \<and> mappings fresh_builder 0"
  using init_valid[of empty_heap "''default''" PNone]
  by (simp add: fresh_builder_def init_explicit empty_heap_def)

lemma script_result:
  assumes "valid h b" and "mappings h b"
  shows "\<exists>c h'. script h b kwargs = (Inr c, h') \<and> script_of h' c = PDict kwargs
           \<and> valid h' c \<and> mappings h' c"
proof -
  from clone_mappings[OF assms] obtain c h1 where
    c: "clone h b = (Inr c, h1)" "valid h1 c" "mappings h1 c" by blast
  from c(3) obtain sm where sm: "script_of h1 c = PDict sm" by (auto simp: mappings_def)
  show ?thesis
    using c sm
    by (auto simp: script_def heap_defs valid_def mappings_def Let_def)
qed

lemma script_explicit:
  assumes "valid h b" "script_of h b = PDict sm" "extra_of h b = PDict em" "params_of h b = PDict pm"
  shows "fst (script h b kwargs) = Inr (next_builder h)
     \<and> next_builder (snd (script h b kwargs)) = Suc (next_builder h)
     \<and> script_of (snd (script h b kwargs)) (next_builder h) = PDict kwargs
     \<and> extra_of (snd (script h b kwargs)) (next_builder h) = PDict em
     \<and> params_of (snd (script h b kwargs)) (next_builder h) = PDict pm
     \<and> query_of (snd (script h b kwargs)) (next_builder h) = query_of h b
     \<and> valid (snd (script h b kwargs)) (next_builder h)"
  unfolding script_def clone_explicit[OF assms] using assms(1)
  by (simp add: heap_defs valid_def Let_def)

lemma wire_explicit:
  assumes "extra_of h b = PDict em"
  shows "wire h b kwargs = Inr (PDict ((if truthy (script_of h b)
                  then fmupd ''script'' (script_of h b)
                         (case query_of h b of None \<Rightarrow> fmempty
                          | Some q \<Rightarrow> fmupd ''query'' (query_to_dict q) fmempty)
                  else (case query_of h b of None \<Rightarrow> fmempty
                        | Some q \<Rightarrow> fmupd ''query'' (query_to_dict q) fmempty))
                 ++\<^sub>f fmmap recursive_to_dict em ++\<^sub>f fmmap recursive_to_dict kwargs))"
  by (simp add: wire_def to_dict_explicit[OF assms])

lemma wire_cong:
  assumes "query_of h' b' = query_of h b" "script_of h' b' = script_of h b" "extra_of h' b' = extra_of h b"
  shows "wire h' b' kwargs = wire h b kwargs"
  using assms by (simp add: wire_def to_dict_def alloc_def Let_def split: sum.splits)

lemma preserves_builder:
  assumes "preserves h h'" "valid h b"
  shows "builders h' b = builders h b \<and> query_of h' b = query_of h b \<and> script_of h' b = script_of h b
     \<and> extra_of h' b = extra_of h b \<and> params_of h' b = params_of h b \<and> valid h' b"
  using assms by (auto simp: preserves_def valid_def heap_defs)

lemma wire_keys:
  assumes "wire h b fmempty = Inr (PDict m)" and "k |\<in>| fmdom m"
  shows "(\<exists>em. recursive_to_dict (extra_of h b) = PDict em \<and> k |\<in>| fmdom em)
     \<or> (k = ''script'' \<and> truthy (script_of h b))
     \<or> (k = ''query'' \<and> query_of h b \<noteq> None)"
proof (cases "recursive_to_dict (extra_of h b)")
  case (PDict em)
  with assms show ?thesis
    by (auto simp: wire_def to_dict_def alloc_def Let_def split: option.splits if_splits)
qed (use assms in \<open>auto simp: wire_def to_dict_def alloc_def Let_def\<close>)

lemma Q_leaf: "kind \<noteq> ''bool'' \<Longrightarrow> Q kind params = Inr (Leaf kind params)"
  by (simp add: Q_def)

lemma query_call_frame:
  assumes "query_call h b q = (r, h')"
  shows "preserves h h' \<and> (\<forall>c. r = Inr c \<longrightarrow> fresh h h' c)"
proof (cases "clone h b")
  case (Pair r1 h1)
  from clone_frame[OF Pair] have f: "preserves h h1" "\<forall>c. r1 = Inr c \<longrightarrow> fresh h h1 c" by simp_all
  show ?thesis
  proof (cases r1)
    case (Inl e)
    with Pair assms f show ?thesis by (simp add: query_call_def)
  next
    case (Inr c)
    with f have fc: "fresh h h1 c" by simp
    from Inr Pair assms have r: "r = Inr c"
      and h': "h' = put_builder h1 c ((builders h1 c)\<lparr>b_proxied :=
                Some (case query_of h1 c of None \<Rightarrow> q | Some p \<Rightarrow> combine p q)\<rparr>)"
      by (simp_all add: query_call_def)
    from f(1) fc show ?thesis unfolding r h'
      by (auto simp: preserves_def fresh_def valid_def heap_defs)
  qed
qed

lemma response_class_frame:
  assumes "response_class h b cls = (r, h')"
  shows "preserves h h' \<and> (\<forall>c. r = Inr c \<longrightarrow> fresh h h' c)"
proof (cases "clone h b")
  case (Pair r1 h1)
  from clone_frame[OF Pair] have f: "preserves h h1" "\<forall>c. r1 = Inr c \<longrightarrow> fresh h h1 c" by simp_all
  show ?thesis
  proof (cases r1)
    case (Inl e)
    with Pair assms f show ?thesis by (simp add: response_class_def)
  next
    case (Inr c)
    with f have fc: "fresh h h1 c" by simp
    from Inr Pair assms have r: "r = Inr c"
      and h': "h' = put_builder h1 c ((builders h1 c)\<lparr>b_response_class := cls\<rparr>)"
      by (simp_all add: response_class_def)
    from f(1) fc show ?thesis unfolding r h'
      by (auto simp: preserves_def fresh_def valid_def heap_defs)
  qed
qed

lemma script_frame:
  assumes "script h b kwargs = (r, h')"
  shows "preserves h h' \<and> (\<forall>c. r = Inr c \<longrightarrow> fresh h h' c)"
proof (cases "clone h b")
  case (Pair r1 h1)
  from clone_frame[OF Pair] have f: "preserves h h1" "\<forall>c. r1 = Inr c \<longrightarrow> fresh h h1 c" by simp_all
  show ?thesis
  proof (cases r1)
    case (Inl e)
    with Pair assms f show ?thesis by (simp add: script_def)
  next
    case (Inr c)
    with f have fc: "fresh h h1 c" by simp
    from Inr Pair assms f(1) fc show ?thesis
      by (auto simp: script_def preserves_def fresh_def valid_def heap_defs Let_def
          split: sum.splits if_splits)
  qed
qed

lemma mutator_frame:
  assumes "apply_mutator h b m = (r, h')"
  shows "preserves h h' \<and> (\<forall>c. r = Inr c \<longrightarrow> fresh h h' c)"
proof (cases m)
  case (Filter kind kwargs)
  with assms show ?thesis
    by (cases "Q kind kwargs") (auto simp: filter_ubq_def preserves_def dest: query_call_frame)
next
  case (Exclude kind kwargs)
  with assms show ?thesis
    by (cases "Q kind kwargs") (auto simp: exclude_def preserves_def dest: query_call_frame)
next
  case (Script kwargs)
  with assms show ?thesis by (auto dest: script_frame)
next
  case (ResponseClass cls)
  with assms show ?thesis by (auto dest: response_class_frame)
qed

lemma mutator_returns:
  assumes "valid h b" and "mappings h b" and "accepted m"
  shows "\<exists>c h'. apply_mutator h b m = (Inr c, h')"
proof -
  from clone_mappings[OF assms(1,2)] obtain c h1 where
    c: "clone h b = (Inr c, h1)" "mappings h1 c" by blast
  from c(2) obtain sm where sm: "script_of h1 c = PDict sm" by (auto simp: mappings_def)
  show ?thesis
  proof (cases m)
    case (Filter kind kwargs)
    with assms(3) c show ?thesis
      by (cases "Q kind kwargs") (simp_all add: filter_ubq_def query_call_def)
  next
    case (Exclude kind kwargs)
    with assms(3) c show ?thesis
      by (cases "Q kind kwargs") (simp_all add: exclude_def query_call_def)
  next
    case (Script kwargs)
    with c sm show ?thesis
      by (simp add: script_def heap_defs Let_def)
  next
    case (ResponseClass cls)
    with c show ?thesis by (simp add: response_class_def)
  qed
qed

lemma query_call_explicit:
  assumes "valid h b" and "mappings h b"
  shows "\<exists>h'. query_call h b q = (Inr (next_builder h), h')
     \<and> query_of h' (next_builder h) = Some (case query_of h b of None \<Rightarrow> q | Some p \<Rightarrow> combine p q)
     \<and> script_of h' (next_builder h) = script_of h b
     \<and> extra_of h' (next_builder h) = extra_of h b"
proof -
  from assms(2) obtain sm em pm where
    m: "script_of h b = PDict sm" "extra_of h b = PDict em" "params_of h b = PDict pm"
    by (auto simp: mappings_def)
  show ?thesis
    unfolding query_call_def clone_explicit[OF assms(1) m] using m
    by (simp add: heap_defs)
qed

lemma reserved_extras_state:
  "valid reserved_extras 0 \<and> next_builder reserved_extras = 1
   \<and> script_of reserved_extras 0 = PDict (fmupd ''source'' (PStr ''x'') fmempty)
   \<and> extra_of reserved_extras 0
       = PDict (fmupd ''script'' (PDict (fmupd ''source'' (PStr ''y'') fmempty)) fmempty)
   \<and> params_of reserved_extras 0 = PDict fmempty
   \<and> query_of reserved_extras 0 = None"
  by (simp add: reserved_extras_def fresh_builder_def init_explicit empty_heap_def heap_defs valid_def)

lemma fmadd_drop_self: "m ++\<^sub>f fmdrop a (fmdrop b m) = m"
  by (rule fmap_ext) auto

lemma fmadd_drop_self1: "m ++\<^sub>f fmdrop a m = m"
  by (rule fmap_ext) auto

lemma fmdrop_absent: "fmlookup m a = None \<Longrightarrow> fmdrop a m = m"
  by (rule fmap_ext) auto

lemma update_from_dict_raises:
  assumes "valid h self" and "d < next_cell h" and "cells h d = PDict m"
    and "parsed_query m (query_of h self) = Inl e"
  shows "\<exists>h'. update_from_dict h self d = (Inl e, h') \<and> preserves h h'"
  using assms
  by (auto simp: update_from_dict_def parsed_query_def heap_defs Let_def preserves_def valid_def
      split: option.splits sum.splits)

lemma update_from_dict_returns:
  assumes "valid h self" and "d < next_cell h" and "cells h d = PDict m"
    and "extra_of h self = PDict em"
    and "parsed_query m (query_of h self) = Inr qo"
  shows "\<exists>h'. update_from_dict h self d = (Inr self, h')
     \<and> query_of h' self = qo
     \<and> script_of h' self = (case fmlookup m ''script'' of None \<Rightarrow> script_of h self | Some v \<Rightarrow> v)
     \<and> extra_of h' self = PDict (em ++\<^sub>f fmdrop ''script'' (fmdrop ''query'' m))
     \<and> cells h' d = PDict m
     \<and> (\<forall>a<next_cell h. a \<noteq> b_extra (builders h self) \<longrightarrow> cells h' a = cells h a)
     \<and> (\<forall>x<next_builder h. x \<noteq> self \<longrightarrow> builders h' x = builders h x)"
  using assms
  by (auto simp: update_from_dict_def parsed_query_def heap_defs Let_def valid_def fmadd_drop_self fmadd_drop_self1 fmdrop_absent
      split: option.splits sum.splits)

lemma round_trip_general:
  assumes "extra_of h b = PDict em" and "parsed_query (body_of h b em) None = Inr qo"
  shows "\<exists>h'. round_trip h b = (Inr (next_builder h), h')
     \<and> query_of h' (next_builder h) = qo
     \<and> script_of h' (next_builder h)
         = (case fmlookup (body_of h b em) ''script'' of None \<Rightarrow> PDict fmempty | Some v \<Rightarrow> v)
     \<and> extra_of h' (next_builder h) = PDict (fmdrop ''script'' (fmdrop ''query'' (body_of h b em)))"
proof -
  let ?u = "next_builder h"
  obtain h1 where t: "to_dict h b fmempty = (Inr (next_cell h), h1)"
    and c1: "cells h1 (next_cell h) = PDict (body_of h b em)"
    and n1: "next_cell h1 = Suc (next_cell h)" "next_builder h1 = next_builder h"
    unfolding to_dict_explicit[OF assms(1)] by (simp add: body_of_def)
  obtain h2 where i: "init h1 ''default'' PNone = (?u, h2)"
    using n1 by (simp add: init_explicit)
  have v: "valid h2 ?u"
    using init_valid[of h1 "''default''" PNone] by (simp add: i)
  have st: "query_of h2 ?u = None" "script_of h2 ?u = PDict fmempty" "extra_of h2 ?u = PDict fmempty"
    "next_cell h < next_cell h2"
    "cells h2 (next_cell h) = PDict (body_of h b em)"
    using n1 c1 i by (auto simp: init_explicit heap_defs)
  have pq: "parsed_query (body_of h b em) (query_of h2 ?u) = Inr qo"
    using assms(2) st(1) by simp
  from update_from_dict_returns[OF v st(4) st(5) st(3) pq, unfolded st(2)]
  obtain h' where u: "update_from_dict h2 ?u (next_cell h) = (Inr ?u, h')"
    and r: "query_of h' ?u = qo"
    "script_of h' ?u = (case fmlookup (body_of h b em) ''script'' of None \<Rightarrow> PDict fmempty | Some v \<Rightarrow> v)"
    "extra_of h' ?u = PDict (fmempty ++\<^sub>f fmdrop ''script'' (fmdrop ''query'' (body_of h b em)))"
    by blast
  have "round_trip h b = (Inr ?u, h')"
    by (simp add: round_trip_def t from_dict_def i u)
  with r show ?thesis by simp
qed

lemma fresh_builder_state:
  shows "next_builder fresh_builder = 1" and "next_cell fresh_builder = 3"
    and "b_params (builders fresh_builder 0) = 0" and "b_extra (builders fresh_builder 0) = 1"
    and "b_script (builders fresh_builder 0) = 2"
    and "query_of fresh_builder 0 = None" and "script_of fresh_builder 0 = PDict fmempty"
    and "extra_of fresh_builder 0 = PDict fmempty" and "params_of fresh_builder 0 = PDict fmempty"
  by (simp_all add: fresh_builder_def init_explicit empty_heap_def heap_defs)

lemma sample_builder_state:
  shows "valid sample_builder 0" and "next_builder sample_builder = 1"
    and "next_cell sample_builder = 3"
    and "query_of sample_builder 0
           = Some (Bool [] [Leaf ''term'' (fmupd ''published'' (PBool True) fmempty)] [])"
    and "script_of sample_builder 0 = PDict (fmupd ''source'' (PStr ''x'') fmempty)"
    and "extra_of sample_builder 0 = PDict (fmupd ''size'' (PInt 1) fmempty)"
    and "params_of sample_builder 0 = PDict fmempty"
  using fresh_builder_state fresh_builder_valid
  by (simp_all add: sample_builder_def heap_defs valid_def)

lemma sequence_map:
  "(\<And>x. x \<in> set xs \<Longrightarrow> f (g x) = Inr x) \<Longrightarrow> sequence (map (f \<circ> g) xs) = Inr xs"
  by (induction xs) simp_all

lemma parse_clause_written:
  assumes "\<And>x. x \<in> set qs \<Longrightarrow> Q_dict (query_to_dict x) = Inr x"
  shows "parse_clause Q_dict (if qs = [] then None else Some (PList (map query_to_dict qs))) = Inr qs"
  using assms by (simp add: sequence_map)

lemma Q_dict_query_to_dict: "well_formed q \<Longrightarrow> Q_dict (query_to_dict q) = Inr q"
proof (induction q)
  case (Leaf kind params)
  then show ?case by simp
next
  case (Bool m f n)
  let ?c = "clause ''must'' (map query_to_dict m)
               ++\<^sub>f clause ''filter'' (map query_to_dict f)
               ++\<^sub>f clause ''must_not'' (map query_to_dict n)"
  have ih: "Q_dict (query_to_dict x) = Inr x" if "x \<in> set m \<union> set f \<union> set n" for x
    using that Bool by auto
  have d: "fmdom ?c |\<subseteq>| {|''must'', ''filter'', ''must_not''|}"
    by (auto simp: clause_def)
  have l: "fmlookup ?c ''must'' = (if m = [] then None else Some (PList (map query_to_dict m)))"
    "fmlookup ?c ''filter'' = (if f = [] then None else Some (PList (map query_to_dict f)))"
    "fmlookup ?c ''must_not'' = (if n = [] then None else Some (PList (map query_to_dict n)))"
    by (auto simp: clause_def)
  have p: "parse_clause Q_dict (fmlookup ?c ''must'') = Inr m"
    "parse_clause Q_dict (fmlookup ?c ''filter'') = Inr f"
    "parse_clause Q_dict (fmlookup ?c ''must_not'') = Inr n"
    unfolding l by (rule parse_clause_written, simp add: ih)+
  show ?case
    using d p by simp
qed



section \<open>Negation\<close>



section \<open>The script\<close>

text \<open>
  C3: \<^verbatim>\<open>script\<close> replaces, it does not merge. On a builder whose containers are
  mappings, \<^verbatim>\<open>script(**kw1)\<close> returns a builder whose script mapping is exactly \<open>kw1\<close>,
  whatever the script was before, and \<^verbatim>\<open>.script(**kw2)\<close> on that one returns a builder
  whose script mapping is exactly \<open>kw2\<close>; with \<^verbatim>\<open>a=1\<close> and then \<^verbatim>\<open>b=2\<close> it is
  \<^verbatim>\<open>{b: 2}\<close>.
\<close>

theorem script_replaces:
  assumes "valid h b" and "mappings h b"
  shows "\<exists>c1 h1. script h b kw1 = (Inr c1, h1) \<and> script_of h1 c1 = PDict kw1
           \<and> (\<exists>c2 h2. script h1 c1 kw2 = (Inr c2, h2) \<and> script_of h2 c2 = PDict kw2)"
proof -
  from script_result[OF assms] obtain c1 h1 where
    s1: "script h b kw1 = (Inr c1, h1)" "script_of h1 c1 = PDict kw1" "valid h1 c1" "mappings h1 c1"
    by blast
  from script_result[OF s1(3,4)] obtain c2 h2 where
    "script h1 c1 kw2 = (Inr c2, h2)" "script_of h2 c2 = PDict kw2"
    by blast
  with s1 show ?thesis by blast
qed

theorem script_replaces_witness:
  "valid fresh_builder 0 \<and> mappings fresh_builder 0
   \<and> fst (script fresh_builder 0 (fmupd ''a'' (PInt 1) fmempty)) = Inr 1
   \<and> fst (script (snd (script fresh_builder 0 (fmupd ''a'' (PInt 1) fmempty))) 1
            (fmupd ''b'' (PInt 2) fmempty)) = Inr 2
   \<and> script_of (snd (script (snd (script fresh_builder 0 (fmupd ''a'' (PInt 1) fmempty))) 1
            (fmupd ''b'' (PInt 2) fmempty))) 2 = PDict (fmupd ''b'' (PInt 2) fmempty)"
proof -
  let ?a = "fmupd ''a'' (PInt 1) fmempty" and ?b = "fmupd ''b'' (PInt 2) fmempty"
  have v: "valid fresh_builder 0" and m: "mappings fresh_builder 0"
    using fresh_builder_valid by simp_all
  have n: "next_builder fresh_builder = 1"
    by (simp add: fresh_builder_def init_explicit empty_heap_def)
  from m obtain sm em pm where
    ms: "script_of fresh_builder 0 = PDict sm" "extra_of fresh_builder 0 = PDict em"
        "params_of fresh_builder 0 = PDict pm"
    by (auto simp: mappings_def)
  note s1 = script_explicit[OF v ms, of ?a, unfolded n]
  then have v1: "valid (snd (script fresh_builder 0 ?a)) 1" 
    and ms1: "script_of (snd (script fresh_builder 0 ?a)) 1 = PDict ?a"
      "extra_of (snd (script fresh_builder 0 ?a)) 1 = PDict em"
      "params_of (snd (script fresh_builder 0 ?a)) 1 = PDict pm"
    and n1: "next_builder (snd (script fresh_builder 0 ?a)) = 2"
    by simp_all
  note s2 = script_explicit[OF v1 ms1, of ?b, unfolded n1]
  from script_replaces[OF v m, of ?a ?b]
  show ?thesis using v m s1 s2 by auto
qed

section \<open>Serialisation\<close>

text \<open>
  C4: what \<^verbatim>\<open>to_dict\<close> emits and in which order it merges. On a builder whose extras
  are a mapping, \<^verbatim>\<open>to_dict(**kwargs)\<close> returns a mapping in which a key of \<open>kwargs\<close> has
  the caller's value, any other key of the extras has the value of the extras, and
  otherwise \<^verbatim>\<open>"script"\<close> is present exactly when the script is non-empty and
  \<^verbatim>\<open>"query"\<close> exactly when a query is held, with the serialised query. The values of the
  extras and of \<open>kwargs\<close> go through \<open>recursive_to_dict\<close>.
\<close>

theorem to_dict_emits_and_merges:
  assumes "extra_of h b = PDict extra"
  shows "\<exists>d h' m. to_dict h b kwargs = (Inr d, h') \<and> cells h' d = PDict m
     \<and> (\<forall>k. fmlookup m k =
           (if k |\<in>| fmdom kwargs then map_option recursive_to_dict (fmlookup kwargs k)
            else if k |\<in>| fmdom extra then map_option recursive_to_dict (fmlookup extra k)
            else if k = ''script'' \<and> truthy (script_of h b) then Some (script_of h b)
            else if k = ''query'' then map_option query_to_dict (query_of h b)
            else None))"
  unfolding to_dict_explicit[OF assms]
  by (auto simp: fmdom_notI split: option.splits)

theorem to_dict_emits_and_merges_witness:
  "extra_of fresh_builder 0 = PDict fmempty
   \<and> (\<exists>d h' m. to_dict fresh_builder 0 (fmupd ''size'' (PInt 1) fmempty) = (Inr d, h')
        \<and> cells h' d = PDict m \<and> fmlookup m ''size'' = Some (PInt 1) \<and> fmlookup m ''query'' = None)"
proof -
  have e: "extra_of fresh_builder 0 = PDict fmempty" "query_of fresh_builder 0 = None"
    by (simp_all add: fresh_builder_def init_explicit empty_heap_def heap_defs)
  from to_dict_emits_and_merges[OF e(1), of "fmupd ''size'' (PInt 1) fmempty"]
  obtain d h' m where "to_dict fresh_builder 0 (fmupd ''size'' (PInt 1) fmempty) = (Inr d, h')"
    "cells h' d = PDict m" "fmlookup m ''size'' = Some (PInt 1)" "fmlookup m ''query'' = None"
    using e(2) by fastforce
  with e show ?thesis by blast
qed

text \<open>
  C10: \<^verbatim>\<open>to_dict\<close> is a pure read. A call \<^verbatim>\<open>b.to_dict(**kwargs)\<close> leaves every object of
  the store as it was, so the query, the script and the extras of \<open>b\<close> are unchanged; a
  later \<^verbatim>\<open>b.to_dict()\<close> returns what it would have returned before, and each of its keys
  comes from the extras, the script or the query of \<open>b\<close>, none from \<open>kwargs\<close>.
\<close>

theorem to_dict_pure_read:
  assumes "valid h b" and "to_dict h b kwargs = (r, h')"
  shows "preserves h h'
     \<and> builders h' b = builders h b
     \<and> query_of h' b = query_of h b \<and> script_of h' b = script_of h b \<and> extra_of h' b = extra_of h b
     \<and> wire h' b fmempty = wire h b fmempty
     \<and> (\<forall>m k. wire h' b fmempty = Inr (PDict m) \<and> k |\<in>| fmdom m \<longrightarrow>
           (\<exists>em. recursive_to_dict (extra_of h b) = PDict em \<and> k |\<in>| fmdom em)
           \<or> (k = ''script'' \<and> truthy (script_of h b))
           \<or> (k = ''query'' \<and> query_of h b \<noteq> None))"
proof -
  have p: "preserves h h'"
    using assms(2) by (auto simp: to_dict_def alloc_def Let_def preserves_def split: sum.splits)
  note pb = preserves_builder[OF p assms(1)]
  then have w: "wire h' b fmempty = wire h b fmempty"
    by (intro wire_cong) simp_all
  have k: "(\<exists>em. recursive_to_dict (extra_of h b) = PDict em \<and> k |\<in>| fmdom em)
       \<or> (k = ''script'' \<and> truthy (script_of h b))
       \<or> (k = ''query'' \<and> query_of h b \<noteq> None)"
    if "wire h' b fmempty = Inr (PDict m) \<and> k |\<in>| fmdom m" for m k
    using that w wire_keys[of h b m k] by simp
  from k have "\<forall>m k. wire h' b fmempty = Inr (PDict m) \<and> k |\<in>| fmdom m \<longrightarrow>
           (\<exists>em. recursive_to_dict (extra_of h b) = PDict em \<and> k |\<in>| fmdom em)
           \<or> (k = ''script'' \<and> truthy (script_of h b))
           \<or> (k = ''query'' \<and> query_of h b \<noteq> None)"
    by blast
  with p pb w show ?thesis by blast
qed

theorem to_dict_pure_read_witness:
  "valid fresh_builder 0
   \<and> to_dict fresh_builder 0 (fmupd ''size'' (PInt 1) fmempty)
       = (fst (to_dict fresh_builder 0 (fmupd ''size'' (PInt 1) fmempty)),
          snd (to_dict fresh_builder 0 (fmupd ''size'' (PInt 1) fmempty)))
   \<and> wire fresh_builder 0 (fmupd ''size'' (PInt 1) fmempty) = Inr (PDict (fmupd ''size'' (PInt 1) fmempty))
   \<and> wire (snd (to_dict fresh_builder 0 (fmupd ''size'' (PInt 1) fmempty))) 0 fmempty
       = Inr (PDict fmempty)"
proof -
  have v: "valid fresh_builder 0" using fresh_builder_valid by simp
  have e: "extra_of fresh_builder 0 = PDict fmempty" "script_of fresh_builder 0 = PDict fmempty"
    "query_of fresh_builder 0 = None"
    by (simp_all add: fresh_builder_def init_explicit empty_heap_def heap_defs)
  have w: "wire fresh_builder 0 kw = Inr (PDict (fmmap recursive_to_dict kw))" for kw
    by (simp add: wire_explicit[OF e(1)] e)
  from to_dict_pure_read[OF v prod.collapse[symmetric], of "fmupd ''size'' (PInt 1) fmempty"]
  have "wire (snd (to_dict fresh_builder 0 (fmupd ''size'' (PInt 1) fmempty))) 0 fmempty
          = wire fresh_builder 0 fmempty"
    by blast
  then show ?thesis using v w[of fmempty] w[of "fmupd ''size'' (PInt 1) fmempty"]
    by (simp add: fmmap_fmupd)
qed

section \<open>Clone on write\<close>

text \<open>
  C2: every mutator (\<^verbatim>\<open>filter\<close>, \<^verbatim>\<open>exclude\<close>, \<^verbatim>\<open>script\<close>, \<^verbatim>\<open>response_class\<close>) works
  on a clone. Whatever the call returns, every object of the store is as it was before,
  so the builder \<open>b\<close>, its query, its script and its extras are unchanged and
  \<^verbatim>\<open>b.to_dict(**kwargs)\<close> returns the same mapping before and after. A returned builder
  is a new instance whose script and extras are other objects than those of \<open>b\<close>. On
  a builder whose containers are mappings, with a query term that the query layer accepts,
  the call does return a builder.
\<close>

theorem mutators_clone_on_write:
  assumes "valid h b" and "apply_mutator h b m = (r, h')"
  shows "preserves h h'
     \<and> builders h' b = builders h b
     \<and> query_of h' b = query_of h b \<and> script_of h' b = script_of h b \<and> extra_of h' b = extra_of h b
     \<and> (\<forall>kwargs. wire h' b kwargs = wire h b kwargs)
     \<and> (\<forall>c. r = Inr c \<longrightarrow>
           c \<noteq> b \<and> fresh h h' c
           \<and> b_script (builders h' c) \<noteq> b_script (builders h' b)
           \<and> b_extra (builders h' c) \<noteq> b_extra (builders h' b))
     \<and> (mappings h b \<and> accepted m \<longrightarrow> (\<exists>c. r = Inr c))"
proof -
  from mutator_frame[OF assms(2)] have p: "preserves h h'"
    and f: "\<forall>c. r = Inr c \<longrightarrow> fresh h h' c" by simp_all
  note pb = preserves_builder[OF p assms(1)]
  have w: "\<forall>kwargs. wire h' b kwargs = wire h b kwargs"
    using pb by (intro allI wire_cong) simp_all
  have n: "\<forall>c. r = Inr c \<longrightarrow>
           c \<noteq> b \<and> fresh h h' c
           \<and> b_script (builders h' c) \<noteq> b_script (builders h' b)
           \<and> b_extra (builders h' c) \<noteq> b_extra (builders h' b)"
  proof (intro allI impI)
    fix c assume "r = Inr c"
    with f have fr: "fresh h h' c" by simp
    then have c: "c = next_builder h" "next_cell h \<le> b_script (builders h' c)"
      "next_cell h \<le> b_extra (builders h' c)"
      unfolding fresh_def by blast+
    from assms(1) have b: "b < next_builder h" "b_script (builders h b) < next_cell h"
      "b_extra (builders h b) < next_cell h"
      by (simp_all add: valid_def)
    from pb have "builders h' b = builders h b" by simp
    with c b fr show "c \<noteq> b \<and> fresh h h' c
           \<and> b_script (builders h' c) \<noteq> b_script (builders h' b)
           \<and> b_extra (builders h' c) \<noteq> b_extra (builders h' b)"
      by simp
  qed
  have e: "mappings h b \<and> accepted m \<longrightarrow> (\<exists>c. r = Inr c)"
  proof
    assume "mappings h b \<and> accepted m"
    then obtain c h'' where "apply_mutator h b m = (Inr c, h'')"
      using mutator_returns[OF assms(1)] by blast
    with assms(2) show "\<exists>c. r = Inr c" by auto
  qed
  from pb have b1: "builders h' b = builders h b" and b2: "query_of h' b = query_of h b"
    and b3: "script_of h' b = script_of h b" and b4: "extra_of h' b = extra_of h b"
    by simp_all
  show ?thesis
    by (intro conjI) (rule p b1 b2 b3 b4 w n e)+
qed

theorem mutators_clone_on_write_witness:
  "valid fresh_builder 0
   \<and> apply_mutator fresh_builder 0 (Script (fmupd ''a'' (PInt 1) fmempty))
       = (fst (apply_mutator fresh_builder 0 (Script (fmupd ''a'' (PInt 1) fmempty))),
          snd (apply_mutator fresh_builder 0 (Script (fmupd ''a'' (PInt 1) fmempty))))
   \<and> mappings fresh_builder 0 \<and> accepted (Script (fmupd ''a'' (PInt 1) fmempty))
   \<and> fst (apply_mutator fresh_builder 0 (Script (fmupd ''a'' (PInt 1) fmempty))) = Inr 1
   \<and> script_of (snd (apply_mutator fresh_builder 0 (Script (fmupd ''a'' (PInt 1) fmempty)))) 0
       = PDict fmempty
   \<and> wire (snd (apply_mutator fresh_builder 0 (Script (fmupd ''a'' (PInt 1) fmempty)))) 0 fmempty
       = wire fresh_builder 0 fmempty"
proof -
  let ?m = "Script (fmupd ''a'' (PInt 1) fmempty)"
  have v: "valid fresh_builder 0" and m: "mappings fresh_builder 0"
    using fresh_builder_valid by simp_all
  have n: "next_builder fresh_builder = 1" and s: "script_of fresh_builder 0 = PDict fmempty"
    by (simp_all add: fresh_builder_def init_explicit empty_heap_def heap_defs)
  note t = mutators_clone_on_write[OF v prod.collapse[symmetric], of ?m]
  from t m have "\<exists>c. fst (apply_mutator fresh_builder 0 ?m) = Inr c" by simp
  then obtain c where c: "fst (apply_mutator fresh_builder 0 ?m) = Inr c" ..
  with t have "fresh fresh_builder (snd (apply_mutator fresh_builder 0 ?m)) c" by blast
  with n c have c1: "fst (apply_mutator fresh_builder 0 ?m) = Inr 1" by (simp add: fresh_def)
  from t have "script_of (snd (apply_mutator fresh_builder 0 ?m)) 0 = script_of fresh_builder 0"
    and "wire (snd (apply_mutator fresh_builder 0 ?m)) 0 fmempty = wire fresh_builder 0 fmempty"
    by blast+
  then have s1: "script_of (snd (apply_mutator fresh_builder 0 ?m)) 0 = PDict fmempty"
    and w1: "wire (snd (apply_mutator fresh_builder 0 ?m)) 0 fmempty = wire fresh_builder 0 fmempty"
    using s by simp_all
  show ?thesis
    by (intro conjI) (rule v m c1 s1 w1 prod.collapse[symmetric] | simp)+
qed

section \<open>Scenarios\<close>

text \<open>
  C5: \<^verbatim>\<open>UpdateByQuery().exclude('term', archived=True).to_dict()\<close>. In any store, on a
  builder just made, \<^verbatim>\<open>exclude\<close> returns a builder holding the filter clause over the
  negated term, and its \<^verbatim>\<open>to_dict()\<close> returns exactly
  \<^verbatim>\<open>{"query": {"bool": {"filter": [{"bool": {"must_not": [{"term": {"archived": true}}]}}]}}}\<close>.
\<close>

theorem exclude_scenario:
  "\<exists>c h1 d h2.
     exclude (snd (init h name index)) (fst (init h name index)) ''term''
         (fmupd ''archived'' (PBool True) fmempty) = (Inr c, h1)
     \<and> query_of h1 c
         = Some (Bool [] [Bool [] [] [Leaf ''term'' (fmupd ''archived'' (PBool True) fmempty)]] [])
     \<and> to_dict h1 c fmempty = (Inr d, h2)
     \<and> cells h2 d =
         PDict (fmupd ''query''
           (PDict (fmupd ''bool''
             (PDict (fmupd ''filter''
               (PList [PDict (fmupd ''bool''
                 (PDict (fmupd ''must_not''
                   (PList [PDict (fmupd ''term''
                     (PDict (fmupd ''archived'' (PBool True) fmempty)) fmempty)])
                   fmempty))
                 fmempty)])
               fmempty))
             fmempty))
           fmempty)"
proof -
  let ?h0 = "snd (init h name index)" and ?b = "fst (init h name index)"
  let ?t = "Leaf ''term'' (fmupd ''archived'' (PBool True) fmempty)"
  have v: "valid ?h0 ?b" and m: "mappings ?h0 ?b"
    using init_valid[of h name index] by simp_all
  have s: "query_of ?h0 ?b = None" "script_of ?h0 ?b = PDict fmempty" "extra_of ?h0 ?b = PDict fmempty"
    by (simp_all add: init_explicit heap_defs)
  from query_call_explicit[OF v m, of "Bool [] [negate ?t] []"] s
  obtain h1 where q: "query_call ?h0 ?b (Bool [] [negate ?t] []) = (Inr (next_builder ?h0), h1)"
    and q1: "query_of h1 (next_builder ?h0) = Some (Bool [] [negate ?t] [])"
    and q2: "script_of h1 (next_builder ?h0) = PDict fmempty"
    and q3: "extra_of h1 (next_builder ?h0) = PDict fmempty"
    by auto
  have e: "exclude ?h0 ?b ''term'' (fmupd ''archived'' (PBool True) fmempty)
             = (Inr (next_builder ?h0), h1)"
    using q by (simp add: exclude_def Q_leaf)
  have t: "cells (snd (to_dict h1 (next_builder ?h0) fmempty)) (next_cell h1)
             = PDict (fmupd ''query'' (query_to_dict (Bool [] [negate ?t] [])) fmempty)"
    and d: "fst (to_dict h1 (next_builder ?h0) fmempty) = Inr (next_cell h1)"
    unfolding to_dict_explicit[OF q3] using q1 q2 by simp_all
  have "to_dict h1 (next_builder ?h0) fmempty
          = (Inr (next_cell h1), snd (to_dict h1 (next_builder ?h0) fmempty))"
    using d by (simp add: prod_eq_iff)
  moreover have "query_to_dict (Bool [] [negate ?t] []) =
         PDict (fmupd ''bool''
             (PDict (fmupd ''filter''
               (PList [PDict (fmupd ''bool''
                 (PDict (fmupd ''must_not''
                   (PList [PDict (fmupd ''term''
                     (PDict (fmupd ''archived'' (PBool True) fmempty)) fmempty)])
                   fmempty))
                 fmempty)])
               fmempty))
             fmempty)"
    by (simp add: clause_def)
  ultimately show ?thesis
    using e q1 t by auto
qed

section \<open>The empty script call\<close>

text \<open>
  C9, as the claim states it: after \<^verbatim>\<open>script()\<close> without arguments on a builder with a
  non-empty script, the key \<^verbatim>\<open>"script"\<close> is absent from the output of \<^verbatim>\<open>to_dict()\<close>.
  It is present when the extras carry that key: \<^verbatim>\<open>to_dict\<close> merges the extras after the
  script.
\<close>

theorem script_without_arguments_counterexample:
  "truthy (script_of reserved_extras 0)
   \<and> fst (script reserved_extras 0 fmempty) = Inr 1
   \<and> script_of (snd (script reserved_extras 0 fmempty)) 1 = PDict fmempty
   \<and> wire (snd (script reserved_extras 0 fmempty)) 1 fmempty
       = Inr (PDict (fmupd ''script'' (PDict (fmupd ''source'' (PStr ''y'') fmempty)) fmempty))"
proof -
  note st = reserved_extras_state
  from st have v: "valid reserved_extras 0"
    and m: "script_of reserved_extras 0 = PDict (fmupd ''source'' (PStr ''x'') fmempty)"
      "extra_of reserved_extras 0
         = PDict (fmupd ''script'' (PDict (fmupd ''source'' (PStr ''y'') fmempty)) fmempty)"
      "params_of reserved_extras 0 = PDict fmempty"
    and n: "next_builder reserved_extras = 1" and q: "query_of reserved_extras 0 = None"
    by simp_all
  note s = script_explicit[OF v m, of fmempty, unfolded n q]
  from s have e: "extra_of (snd (script reserved_extras 0 fmempty)) 1
      = PDict (fmupd ''script'' (PDict (fmupd ''source'' (PStr ''y'') fmempty)) fmempty)"
    by simp
  from s have "query_of (snd (script reserved_extras 0 fmempty)) 1 = None"
    and sc: "script_of (snd (script reserved_extras 0 fmempty)) 1 = PDict fmempty"
    and f: "fst (script reserved_extras 0 fmempty) = Inr 1"
    by simp_all
  then have w: "wire (snd (script reserved_extras 0 fmempty)) 1 fmempty
       = Inr (PDict (fmupd ''script'' (PDict (fmupd ''source'' (PStr ''y'') fmempty)) fmempty))"
    unfolding wire_explicit[OF e] by (simp add: fmmap_fmupd)
  have t: "truthy (script_of reserved_extras 0)"
    unfolding m(1) by simp
  show ?thesis
    by (intro conjI) (rule t f sc w)+
qed

text \<open>
  C9, amended: \<^verbatim>\<open>script()\<close> without arguments, on a builder whose containers are
  mappings, returns a builder whose script mapping is empty, whatever the script was.
  In the output of that builder's \<^verbatim>\<open>to_dict()\<close> the key \<^verbatim>\<open>"script"\<close> is then absent
  unless it is a key of the extras; when it is, the value under it is the value that the
  extras hold, as \<open>recursive_to_dict\<close> serialises it, and nothing of the erased script.
\<close>

theorem script_without_arguments:
  assumes "valid h b" and "mappings h b"
  shows "\<exists>c h' m em. script h b fmempty = (Inr c, h')
     \<and> script_of h' c = PDict fmempty
     \<and> wire h' c fmempty = Inr (PDict m)
     \<and> extra_of h b = PDict em
     \<and> (''script'' |\<in>| fmdom m \<longleftrightarrow> ''script'' |\<in>| fmdom em)
     \<and> fmlookup m ''script'' = map_option recursive_to_dict (fmlookup em ''script'')"
proof -
  from assms(2) obtain sm em pm where
    m: "script_of h b = PDict sm" "extra_of h b = PDict em" "params_of h b = PDict pm"
    by (auto simp: mappings_def)
  let ?c = "next_builder h" and ?h' = "snd (script h b fmempty)"
  note s = script_explicit[OF assms(1) m, of fmempty]
  then have e: "extra_of ?h' ?c = PDict em" and sc: "script_of ?h' ?c = PDict fmempty"
    and r: "script h b fmempty = (Inr ?c, ?h')"
    by (simp_all add: prod_eq_iff)
  let ?m = "(case query_of h b of None \<Rightarrow> fmempty
             | Some q \<Rightarrow> fmupd ''query'' (query_to_dict q) fmempty)
            ++\<^sub>f fmmap recursive_to_dict em"
  have w: "wire ?h' ?c fmempty = Inr (PDict ?m)"
    using s by (simp add: wire_explicit[OF e])
  have k: "''script'' |\<in>| fmdom ?m \<longleftrightarrow> ''script'' |\<in>| fmdom em"
    by (simp split: option.splits)
  have l: "fmlookup ?m ''script'' = map_option recursive_to_dict (fmlookup em ''script'')"
    by (cases "fmlookup em ''script''") (auto simp: fmdom_notI fmdomI split: option.splits)
  from r sc w m(2) k l show ?thesis by blast
qed

theorem script_without_arguments_witness:
  "valid (snd (script fresh_builder 0 (fmupd ''source'' (PStr ''x'') fmempty))) 1
   \<and> mappings (snd (script fresh_builder 0 (fmupd ''source'' (PStr ''x'') fmempty))) 1
   \<and> truthy (script_of (snd (script fresh_builder 0 (fmupd ''source'' (PStr ''x'') fmempty))) 1)
   \<and> (\<exists>c h' m.
         script (snd (script fresh_builder 0 (fmupd ''source'' (PStr ''x'') fmempty))) 1 fmempty
           = (Inr c, h')
       \<and> script_of h' c = PDict fmempty
       \<and> wire h' c fmempty = Inr (PDict m)
       \<and> fmlookup m ''script'' = None)
   \<and> valid reserved_extras 0 \<and> mappings reserved_extras 0
   \<and> truthy (script_of reserved_extras 0)
   \<and> (\<exists>c h' m.
         script reserved_extras 0 fmempty = (Inr c, h')
       \<and> script_of h' c = PDict fmempty
       \<and> wire h' c fmempty = Inr (PDict m)
       \<and> fmlookup m ''script'' = Some (PDict (fmupd ''source'' (PStr ''y'') fmempty)))"
proof -
  let ?h = "snd (script fresh_builder 0 (fmupd ''source'' (PStr ''x'') fmempty))"
  have v0: "valid fresh_builder 0" using fresh_builder_valid by simp
  have n: "next_builder fresh_builder = 1"
    and m0: "script_of fresh_builder 0 = PDict fmempty" "extra_of fresh_builder 0 = PDict fmempty"
      "params_of fresh_builder 0 = PDict fmempty"
    by (simp_all add: fresh_builder_def init_explicit empty_heap_def heap_defs)
  note s = script_explicit[OF v0 m0, of "fmupd ''source'' (PStr ''x'') fmempty", unfolded n]
  then have v: "valid ?h 1" and m: "mappings ?h 1" and t: "truthy (script_of ?h 1)"
    and e: "extra_of ?h 1 = PDict fmempty"
    by (simp_all add: mappings_def)
  from script_without_arguments[OF v m] e
  have a: "\<exists>c h' m. script ?h 1 fmempty = (Inr c, h')
       \<and> script_of h' c = PDict fmempty
       \<and> wire h' c fmempty = Inr (PDict m)
       \<and> fmlookup m ''script'' = None"
    by fastforce
  note st = reserved_extras_state
  from st have vr: "valid reserved_extras 0"
    and er: "extra_of reserved_extras 0
         = PDict (fmupd ''script'' (PDict (fmupd ''source'' (PStr ''y'') fmempty)) fmempty)"
    and tr: "truthy (script_of reserved_extras 0)"
    by simp_all
  from st have mr: "mappings reserved_extras 0"
    by (simp add: mappings_def)
  from script_without_arguments[OF vr mr] er
  have b: "\<exists>c h' m. script reserved_extras 0 fmempty = (Inr c, h')
       \<and> script_of h' c = PDict fmempty
       \<and> wire h' c fmempty = Inr (PDict m)
       \<and> fmlookup m ''script'' = Some (PDict (fmupd ''source'' (PStr ''y'') fmempty))"
    by (fastforce simp: fmmap_fmupd)
  show ?thesis
    by (intro conjI) (rule v m t a vr mr tr b)+
qed

section \<open>The round trip\<close>

text \<open>
  C1, as the spec states it: for every builder \<open>b\<close>, \<^verbatim>\<open>from_dict(b.to_dict())\<close> has the
  query, the script and the extras of \<open>b\<close>. Three builders show that it fails. With the
  extras \<^verbatim>\<open>{"query": {"match_all": {}}}\<close> and no query, \<^verbatim>\<open>to_dict\<close> writes the extras under
  \<^verbatim>\<open>"query"\<close> and \<^verbatim>\<open>from_dict\<close> pops that key: the new builder holds a query and has no
  extras. With the script \<^verbatim>\<open>{"source": "x"}\<close> and the extras
  \<^verbatim>\<open>{"script": {"source": "y"}}\<close>, the extras overwrite the script in the body: the new
  builder has the script \<^verbatim>\<open>{"source": "y"}\<close> and no extras. With an object in the extras,
  \<^verbatim>\<open>to_dict\<close> serialises it and the new builder has the serialised form in its place.
\<close>

theorem round_trip_law_counterexample:
  "query_of reserved_query 0 = None
   \<and> extra_of reserved_query 0
       = PDict (fmupd ''query'' (PDict (fmupd ''match_all'' (PDict fmempty) fmempty)) fmempty)
   \<and> fst (round_trip reserved_query 0) = Inr 1
   \<and> query_of (snd (round_trip reserved_query 0)) 1 = Some (Leaf ''match_all'' fmempty)
   \<and> extra_of (snd (round_trip reserved_query 0)) 1 = PDict fmempty
   \<and> script_of reserved_extras 0 = PDict (fmupd ''source'' (PStr ''x'') fmempty)
   \<and> extra_of reserved_extras 0
       = PDict (fmupd ''script'' (PDict (fmupd ''source'' (PStr ''y'') fmempty)) fmempty)
   \<and> fst (round_trip reserved_extras 0) = Inr 1
   \<and> script_of (snd (round_trip reserved_extras 0)) 1 = PDict (fmupd ''source'' (PStr ''y'') fmempty)
   \<and> extra_of (snd (round_trip reserved_extras 0)) 1 = PDict fmempty
   \<and> extra_of object_extras 0
       = PDict (fmupd ''sort'' (PObj (PDict (fmupd ''price'' (PStr ''asc'') fmempty))) fmempty)
   \<and> fst (round_trip object_extras 0) = Inr 1
   \<and> extra_of (snd (round_trip object_extras 0)) 1
       = PDict (fmupd ''sort'' (PDict (fmupd ''price'' (PStr ''asc'') fmempty)) fmempty)"
proof -
  let ?q = "fmupd ''query'' (PDict (fmupd ''match_all'' (PDict fmempty) fmempty)) fmempty"
  let ?s = "fmupd ''script'' (PDict (fmupd ''source'' (PStr ''y'') fmempty)) fmempty"
  let ?o = "fmupd ''sort'' (PObj (PDict (fmupd ''price'' (PStr ''asc'') fmempty))) fmempty"
  note fb = fresh_builder_state
  have a: "query_of reserved_query 0 = None" "extra_of reserved_query 0 = PDict ?q"
    "script_of reserved_query 0 = PDict fmempty" "next_builder reserved_query = 1"
    using fb by (simp_all add: reserved_query_def heap_defs)
  have ba: "body_of reserved_query 0 ?q = ?q"
    using a by (simp add: body_of_def fmmap_fmupd)
  have pa: "parsed_query (body_of reserved_query 0 ?q) None = Inr (Some (Leaf ''match_all'' fmempty))"
    unfolding ba by (simp add: parsed_query_def)
  from round_trip_general[OF a(2) pa] obtain h' where
    ra: "round_trip reserved_query 0 = (Inr 1, h')" "query_of h' 1 = Some (Leaf ''match_all'' fmempty)"
    "extra_of h' 1 = PDict fmempty"
    unfolding ba a(4) by (auto simp: fmdrop_fmupd)
  from reserved_extras_state have c: "query_of reserved_extras 0 = None"
    "extra_of reserved_extras 0 = PDict ?s"
    "script_of reserved_extras 0 = PDict (fmupd ''source'' (PStr ''x'') fmempty)"
    "next_builder reserved_extras = 1"
    by simp_all
  have bc: "body_of reserved_extras 0 ?s = ?s"
    using c by (simp add: body_of_def fmmap_fmupd)
  have pc: "parsed_query (body_of reserved_extras 0 ?s) None = Inr None"
    unfolding bc by (simp add: parsed_query_def)
  from round_trip_general[OF c(2) pc] obtain k' where
    rc: "round_trip reserved_extras 0 = (Inr 1, k')"
    "script_of k' 1 = PDict (fmupd ''source'' (PStr ''y'') fmempty)"
    "extra_of k' 1 = PDict fmempty"
    unfolding bc c(4) by (auto simp: fmdrop_fmupd)
  have b: "query_of object_extras 0 = None" "extra_of object_extras 0 = PDict ?o"
    "script_of object_extras 0 = PDict fmempty" "next_builder object_extras = 1"
    using fb by (simp_all add: object_extras_def heap_defs)
  have bb: "body_of object_extras 0 ?o
              = fmupd ''sort'' (PDict (fmupd ''price'' (PStr ''asc'') fmempty)) fmempty"
    using b by (simp add: body_of_def fmmap_fmupd)
  have pb: "parsed_query (body_of object_extras 0 ?o) None = Inr None"
    unfolding bb by (simp add: parsed_query_def)
  from round_trip_general[OF b(2) pb] obtain h'' where
    rb: "round_trip object_extras 0 = (Inr 1, h'')"
    "extra_of h'' 1 = PDict (fmupd ''sort'' (PDict (fmupd ''price'' (PStr ''asc'') fmempty)) fmempty)"
    unfolding bb b(4) by (auto simp: fmdrop_fmupd)
  show ?thesis
    using a(1,2) b(2) c(2,3) ra rb rc by simp
qed

text \<open>
  C1, amended: for every builder whose script and extras are mappings and whose extras
  have neither the key \<^verbatim>\<open>"query"\<close> nor the key \<^verbatim>\<open>"script"\<close> and are unchanged by
  \<open>recursive_to_dict\<close>, \<^verbatim>\<open>from_dict(b.to_dict())\<close> returns a builder with the query, the
  script and the extras of \<open>b\<close>. A held query is a query node of the data model
  (\<open>well_formed\<close>: \<^verbatim>\<open>bool\<close> names the compound, never a leaf); \<open>Q\<close> reads every such
  query back from its serialised form, which is the lemma \<open>Q_dict_query_to_dict\<close>.
\<close>

theorem round_trip_law:
  assumes "script_of h b = PDict sm" and "extra_of h b = PDict em"
    and "''query'' |\<notin>| fmdom em" and "''script'' |\<notin>| fmdom em"
    and "fmmap recursive_to_dict em = em"
    and "case query_of h b of None \<Rightarrow> True | Some q \<Rightarrow> well_formed q"
  shows "\<exists>u h'. round_trip h b = (Inr u, h')
     \<and> query_of h' u = query_of h b
     \<and> script_of h' u = script_of h b
     \<and> extra_of h' u = extra_of h b"
proof -
  let ?body = "body_of h b em"
  have nq: "fmlookup em ''query'' = None" and ns: "fmlookup em ''script'' = None"
    using assms(3,4) by (simp_all add: fmdom_notD)
  have lq: "fmlookup ?body ''query'' = map_option query_to_dict (query_of h b)"
    using nq by (simp add: body_of_def assms(5) fmdom_notI split: option.splits)
  have ls: "fmlookup ?body ''script'' = (if sm = fmempty then None else Some (PDict sm))"
    using ns by (simp add: body_of_def assms(1,5) fmdom_notI split: option.splits)
  have rb: "Q_dict (query_to_dict q) = Inr q" if "query_of h b = Some q" for q
    using assms(6) that by (simp add: Q_dict_query_to_dict)
  have pq: "parsed_query ?body None = Inr (query_of h b)"
    using rb by (cases "query_of h b") (simp_all add: parsed_query_def lq)
  have dr: "fmdrop ''script'' (fmdrop ''query'' ?body) = em"
    using nq ns
    by (intro fmap_ext) (auto simp: body_of_def assms(5) fmdom_notI split: option.splits)
  from round_trip_general[OF assms(2) pq] obtain h' where
    "round_trip h b = (Inr (next_builder h), h')" "query_of h' (next_builder h) = query_of h b"
    "script_of h' (next_builder h) = script_of h b" "extra_of h' (next_builder h) = extra_of h b"
    unfolding ls dr assms(1,2) by (auto split: if_splits)
  then show ?thesis by blast
qed

theorem round_trip_law_witness:
  "script_of sample_builder 0 = PDict (fmupd ''source'' (PStr ''x'') fmempty)
   \<and> extra_of sample_builder 0 = PDict (fmupd ''size'' (PInt 1) fmempty)
   \<and> ''query'' |\<notin>| fmdom (fmupd ''size'' (PInt 1) fmempty)
   \<and> ''script'' |\<notin>| fmdom (fmupd ''size'' (PInt 1) fmempty)
   \<and> fmmap recursive_to_dict (fmupd ''size'' (PInt 1) fmempty) = fmupd ''size'' (PInt 1) fmempty
   \<and> query_of sample_builder 0
       = Some (Bool [] [Leaf ''term'' (fmupd ''published'' (PBool True) fmempty)] [])
   \<and> well_formed (Bool [] [Leaf ''term'' (fmupd ''published'' (PBool True) fmempty)] [])
   \<and> (\<exists>u h'. round_trip sample_builder 0 = (Inr u, h')
        \<and> query_of h' u
            = Some (Bool [] [Leaf ''term'' (fmupd ''published'' (PBool True) fmempty)] [])
        \<and> script_of h' u = PDict (fmupd ''source'' (PStr ''x'') fmempty)
        \<and> extra_of h' u = PDict (fmupd ''size'' (PInt 1) fmempty))"
proof -
  note st = sample_builder_state
  have k: "''query'' |\<notin>| fmdom (fmupd ''size'' (PInt 1) fmempty)"
    "''script'' |\<notin>| fmdom (fmupd ''size'' (PInt 1) fmempty)"
    by simp_all
  have p: "fmmap recursive_to_dict (fmupd ''size'' (PInt 1) fmempty) = fmupd ''size'' (PInt 1) fmempty"
    by (simp add: fmmap_fmupd)
  have wf: "well_formed (Bool [] [Leaf ''term'' (fmupd ''published'' (PBool True) fmempty)] [])"
    by simp
  have q: "case query_of sample_builder 0 of None \<Rightarrow> True | Some q \<Rightarrow> well_formed q"
    unfolding st(4) by simp
  from round_trip_law[OF st(5) st(6) k p q]
  have r: "\<exists>u h'. round_trip sample_builder 0 = (Inr u, h')
        \<and> query_of h' u
            = Some (Bool [] [Leaf ''term'' (fmupd ''published'' (PBool True) fmempty)] [])
        \<and> script_of h' u = PDict (fmupd ''source'' (PStr ''x'') fmempty)
        \<and> extra_of h' u = PDict (fmupd ''size'' (PInt 1) fmempty)"
    unfolding st(4,5,6) .
  show ?thesis
    by (intro conjI) (rule st(4) st(5) st(6) k p wf r)+
qed

section \<open>Reading a wire mapping\<close>

text \<open>
  C6: \<^verbatim>\<open>update_from_dict(d)\<close> on a builder whose extras are a mapping, for a mapping \<open>d\<close>
  of the store. When \<open>d\<close> has a key \<^verbatim>\<open>"query"\<close> that \<open>Q\<close> rejects, the error is raised and
  every object of the store is as before. Otherwise the call returns the builder itself:
  its query is the parsed value of \<^verbatim>\<open>"query"\<close> (the held one when the key is absent), its
  script is the value of \<^verbatim>\<open>"script"\<close> as it is (the held one when the key is absent), its
  extras are updated with all the other keys of \<open>d\<close>, unread and unchecked, and the
  caller's mapping \<open>d\<close> has the contents it had.
\<close>

theorem update_from_dict_pops:
  assumes "valid h self" and "d < next_cell h" and "cells h d = PDict m"
    and "extra_of h self = PDict em"
  shows "(\<forall>e. parsed_query m (query_of h self) = Inl e \<longrightarrow>
            (\<exists>h'. update_from_dict h self d = (Inl e, h') \<and> preserves h h'))
     \<and> (\<forall>qo. parsed_query m (query_of h self) = Inr qo \<longrightarrow>
            (\<exists>h'. update_from_dict h self d = (Inr self, h')
               \<and> query_of h' self = qo
               \<and> script_of h' self
                   = (case fmlookup m ''script'' of None \<Rightarrow> script_of h self | Some v \<Rightarrow> v)
               \<and> extra_of h' self = PDict (em ++\<^sub>f fmdrop ''script'' (fmdrop ''query'' m))
               \<and> cells h' d = PDict m
               \<and> (\<forall>a<next_cell h. a \<noteq> b_extra (builders h self) \<longrightarrow> cells h' a = cells h a)
               \<and> (\<forall>x<next_builder h. x \<noteq> self \<longrightarrow> builders h' x = builders h x)))"
proof (intro conjI allI impI)
  fix e assume "parsed_query m (query_of h self) = Inl e"
  from update_from_dict_raises[OF assms(1,2,3) this]
  show "\<exists>h'. update_from_dict h self d = (Inl e, h') \<and> preserves h h'" .
next
  fix qo assume "parsed_query m (query_of h self) = Inr qo"
  from update_from_dict_returns[OF assms this]
  show "\<exists>h'. update_from_dict h self d = (Inr self, h')
               \<and> query_of h' self = qo
               \<and> script_of h' self
                   = (case fmlookup m ''script'' of None \<Rightarrow> script_of h self | Some v \<Rightarrow> v)
               \<and> extra_of h' self = PDict (em ++\<^sub>f fmdrop ''script'' (fmdrop ''query'' m))
               \<and> cells h' d = PDict m
               \<and> (\<forall>a<next_cell h. a \<noteq> b_extra (builders h self) \<longrightarrow> cells h' a = cells h a)
               \<and> (\<forall>x<next_builder h. x \<noteq> self \<longrightarrow> builders h' x = builders h x)" .
qed

theorem update_from_dict_pops_witness:
  "valid with_body 0 \<and> 3 < next_cell with_body \<and> cells with_body 3 = PDict scenario_body
   \<and> extra_of with_body 0 = PDict fmempty
   \<and> parsed_query scenario_body (query_of with_body 0) = Inr (Some (Leaf ''match_all'' fmempty))
   \<and> (\<exists>h'. update_from_dict with_body 0 3 = (Inr 0, h')
        \<and> query_of h' 0 = Some (Leaf ''match_all'' fmempty)
        \<and> script_of h' 0 = PDict (fmupd ''source'' (PStr ''x'') fmempty)
        \<and> extra_of h' 0 = PDict (fmupd ''size'' (PInt 1) fmempty)
        \<and> cells h' 3 = PDict scenario_body)"
proof -
  have v: "valid with_body 0" and d: "3 < next_cell with_body"
    and c: "cells with_body 3 = PDict scenario_body"
    and e: "extra_of with_body 0 = PDict fmempty"
    and q: "query_of with_body 0 = None"
    using fresh_builder_state fresh_builder_valid
    by (simp_all add: with_body_def heap_defs valid_def)
  have p: "parsed_query scenario_body (query_of with_body 0) = Inr (Some (Leaf ''match_all'' fmempty))"
    unfolding q by (simp add: parsed_query_def scenario_body_def)
  have s: "fmlookup scenario_body ''script'' = Some (PDict (fmupd ''source'' (PStr ''x'') fmempty))"
    by (simp add: scenario_body_def)
  have r: "fmempty ++\<^sub>f fmdrop ''script'' (fmdrop ''query'' scenario_body)
             = fmupd ''size'' (PInt 1) fmempty"
    by (simp add: scenario_body_def fmdrop_fmupd)
  from update_from_dict_pops[OF v d c e] p
  obtain h' where "update_from_dict with_body 0 3 = (Inr 0, h')"
    "query_of h' 0 = Some (Leaf ''match_all'' fmempty)"
    "script_of h' 0 = (case fmlookup scenario_body ''script'' of None \<Rightarrow> script_of with_body 0 | Some v \<Rightarrow> v)"
    "extra_of h' 0 = PDict (fmempty ++\<^sub>f fmdrop ''script'' (fmdrop ''query'' scenario_body))"
    "cells h' 3 = PDict scenario_body"
    by blast
  then have x: "\<exists>h'. update_from_dict with_body 0 3 = (Inr 0, h')
        \<and> query_of h' 0 = Some (Leaf ''match_all'' fmempty)
        \<and> script_of h' 0 = PDict (fmupd ''source'' (PStr ''x'') fmempty)
        \<and> extra_of h' 0 = PDict (fmupd ''size'' (PInt 1) fmempty)
        \<and> cells h' 3 = PDict scenario_body"
    unfolding s r by auto
  show ?thesis
    by (intro conjI) (rule v d c e p x)+
qed

section \<open>Execution\<close>



end
